theory Spec2Isabelle
  imports Complex_Main "HOL-Library.Sublist"
begin

section \<open>The streaming callback handler of app.py\<close>

text \<open>
  The handler edits one chat message while an answer is generated. It is driven by two
  callbacks, \<^verbatim>\<open>on_llm_new_token\<close> (once per token) and \<^verbatim>\<open>on_llm_end\<close> (once, after the last
  token). Its effects are calls of \<^verbatim>\<open>app.client.chat_update\<close>; its inputs, besides the token,
  are the reading of \<^verbatim>\<open>time.time()\<close> and whether the edit call returns or raises.

  Clock readings are modelled as real numbers and Python's \<^verbatim>\<open>str\<close> as \<open>string\<close>; the
  true division \<^verbatim>\<open>update_count / 10\<close> is the exact quotient.
\<close>

subsection \<open>Data\<close>

text \<open>The keyword arguments of one call of \<^verbatim>\<open>app.client.chat_update\<close>.\<close>

record edit =
  e_channel :: string
  e_ts :: string
  e_text :: string

text \<open>What a call of a callback does besides changing the handler: it returns or raises.\<close>

datatype error = SlackApiError | KeyError string | ValueError string | ChainError

datatype outcome = Returned | Raised error

text \<open>
  An instance of \<^verbatim>\<open>SlackStreamingCallbackHandler\<close>. \<^verbatim>\<open>__init__\<close> sets \<^verbatim>\<open>channel\<close>, \<^verbatim>\<open>ts\<close>,
  \<^verbatim>\<open>interval\<close> and \<^verbatim>\<open>update_count\<close>. \<^verbatim>\<open>last_send_time\<close> and \<^verbatim>\<open>message\<close> are attributes of the
  class: an instance has none of its own (\<open>None\<close>) until a callback assigns one, and a read
  falls back to the attribute of the class.
\<close>

record handler =
  channel :: string
  ts :: string
  interval :: int
  update_count :: int
  inst_last_send_time :: "real option"
  inst_message :: "string option"

text \<open>
  The class body runs once, when the module is loaded: \<^verbatim>\<open>last_send_time = time.time()\<close> is the
  clock reading at that moment (the parameter \<open>cls_time\<close> below) and \<^verbatim>\<open>message = ""\<close>. No
  statement of the program assigns to an attribute of the class afterwards.
\<close>

definition CHAT_UPDATE_INTERVAL_SEC :: int where
  "CHAT_UPDATE_INTERVAL_SEC = 1"

definition cls_message :: string where
  "cls_message = []"

definition last_send_time :: "real \<Rightarrow> handler \<Rightarrow> real" where
  "last_send_time cls_time self =
     (case inst_last_send_time self of Some t \<Rightarrow> t | None \<Rightarrow> cls_time)"

definition message :: "handler \<Rightarrow> string" where
  "message self = (case inst_message self of Some m \<Rightarrow> m | None \<Rightarrow> cls_message)"

text \<open>The in-progress marker, \<^verbatim>\<open>"\n\nTyping..."\<close>.\<close>

definition typing_marker :: string where
  "typing_marker = [CHR 0x0A, CHR 0x0A] @ ''Typing...''"

text \<open>A published text without its last characters, as many as the marker has.\<close>

definition unmark :: "string \<Rightarrow> string" where
  "unmark s = take (length s - length typing_marker) s"

subsection \<open>The constructor and the two callbacks\<close>

definition init :: "string \<Rightarrow> string \<Rightarrow> handler" where
  "init ch t =
     \<lparr>channel = ch, ts = t, interval = CHAT_UPDATE_INTERVAL_SEC, update_count = 0,
      inst_last_send_time = None, inst_message = None\<rparr>"

text \<open>
  \<^verbatim>\<open>on_llm_new_token(self, token)\<close>, with \<open>now\<close> the value \<^verbatim>\<open>time.time()\<close> returns in this call
  and \<open>ok\<close> telling whether \<^verbatim>\<open>chat_update\<close>, if it is called, returns. The result is the
  handler after the call, the edit calls made, and how the callback ended. When the edit
  call raises, the assignments after it are not reached; the one before it is kept.
\<close>

definition on_llm_new_token ::
    "real \<Rightarrow> handler \<Rightarrow> string \<Rightarrow> real \<Rightarrow> bool \<Rightarrow> handler \<times> edit list \<times> outcome" where
  "on_llm_new_token cls_time self token now ok =
     (let self1 = self\<lparr>inst_message := Some (message self @ token)\<rparr> in
      if now - last_send_time cls_time self1 > real_of_int (interval self1) then
        (let call = \<lparr>e_channel = channel self1, e_ts = ts self1,
                     e_text = message self1 @ typing_marker\<rparr> in
         if \<not> ok then (self1, [call], Raised SlackApiError)
         else
           (let self2 = self1\<lparr>inst_last_send_time := Some now\<rparr>;
                self3 = self2\<lparr>update_count := update_count self2 + 1\<rparr>;
                self4 = (if real_of_int (update_count self3) / 10 > real_of_int (interval self3)
                         then self3\<lparr>interval := interval self3 * 2\<rparr> else self3)
            in (self4, [call], Returned)))
      else (self1, [], Returned))"

text \<open>\<^verbatim>\<open>on_llm_end(self, response)\<close>: one edit call with the accumulated text as it is.\<close>

definition on_llm_end :: "handler \<Rightarrow> bool \<Rightarrow> handler \<times> edit list \<times> outcome" where
  "on_llm_end self ok =
     (self, [\<lparr>e_channel = channel self, e_ts = ts self, e_text = message self\<rparr>],
      if ok then Returned else Raised SlackApiError)"

subsection \<open>A streaming session\<close>

text \<open>
  One delivery of a token: the token, the clock reading during the callback, and whether
  an edit call made in it returns.
\<close>

record tick =
  tok :: string
  clock :: real
  edit_ok :: bool

text \<open>
  The callbacks are called by the generation call, one after the other on one thread.
  An exception that leaves a callback reaches that caller; \<open>raise_error\<close> says whether the
  caller lets it pass (the stream is abandoned) or discards it and goes on. The program
  leaves the attribute as its base class has it, \<open>False\<close>; the properties below that hold
  for both values are stated for both.
\<close>

fun deliver :: "bool \<Rightarrow> real \<Rightarrow> handler \<Rightarrow> tick list \<Rightarrow> handler \<times> edit list \<times> outcome" where
  "deliver raise_error cls_time self [] = (self, [], Returned)"
| "deliver raise_error cls_time self (e # es) =
     (case on_llm_new_token cls_time self (tok e) (clock e) (edit_ok e) of
        (self', calls, r) \<Rightarrow>
          if r \<noteq> Returned \<and> raise_error then (self', calls, r)
          else (case deliver raise_error cls_time self' es of
                  (self'', calls', r') \<Rightarrow> (self'', calls @ calls', r')))"

text \<open>A whole session: the constructor, the tokens, then \<^verbatim>\<open>on_llm_end\<close>.\<close>

definition session ::
    "bool \<Rightarrow> real \<Rightarrow> string \<Rightarrow> string \<Rightarrow> tick list \<Rightarrow> bool \<Rightarrow> handler \<times> edit list \<times> outcome" where
  "session raise_error cls_time ch t es end_ok =
     (case deliver raise_error cls_time (init ch t) es of
        (self, calls, r) \<Rightarrow>
          if r \<noteq> Returned then (self, calls, r)
          else (case on_llm_end self end_ok of
                  (self', calls', r') \<Rightarrow> (self', calls @ calls', r')))"

section \<open>The turn: \<^verbatim>\<open>handle_mention\<close>\<close>

subsection \<open>Removing the mention: \<^verbatim>\<open>re.sub("<@.*>", "", text)\<close>\<close>

text \<open>
  The pattern is the two characters \<^verbatim>\<open><@\<close>, then \<^verbatim>\<open>.*\<close>, then \<^verbatim>\<open>>\<close>. Without the DOTALL flag
  \<^verbatim>\<open>.\<close> matches every character but the line feed, and \<^verbatim>\<open>*\<close> is greedy: a match that starts
  at a \<^verbatim>\<open><@\<close> ends at the last \<^verbatim>\<open>>\<close> of the same line. \<open>match_mention s\<close> is the length of the
  match at the very start of \<open>s\<close>, if there is one.
\<close>

fun match_mention :: "string \<Rightarrow> nat option" where
  "match_mention (a # b # cs) =
     (if a = CHR ''<'' \<and> b = CHR ''@'' then
        (let line = takeWhile (\<lambda>c. c \<noteq> CHR 0x0A) cs;
             upto = dropWhile (\<lambda>c. c \<noteq> CHR ''>'') (rev line)
         in if upto = [] then None else Some (2 + length upto))
      else None)"
| "match_mention _ = None"

lemma match_mention_pos: "match_mention s = Some n \<Longrightarrow> 0 < n"
  by (cases s rule: match_mention.cases) (auto simp: Let_def split: if_splits)

text \<open>
  \<^verbatim>\<open>re.sub\<close> scans from left to right and replaces every match, the leftmost first, going on
  behind it; here a match is replaced by the empty string.
\<close>

function re_sub_mention :: "string \<Rightarrow> string" where
  "re_sub_mention [] = []"
| "re_sub_mention (c # cs) =
     (case match_mention (c # cs) of
        Some n \<Rightarrow> re_sub_mention (drop n (c # cs))
      | None \<Rightarrow> c # re_sub_mention cs)"
  by pat_completeness auto
termination
  by (relation "measure length") (auto dest: match_mention_pos)

text \<open>
  The removal as claim C10 words it, to be compared with \<open>re_sub_mention\<close>: the text without
  the one substring that starts at the first occurrence of \<^verbatim>\<open><@\<close> and ends at the last \<^verbatim>\<open>>\<close>
  of the text; a text with no such substring is left as it is. \<open>find_mention\<close> is the index
  of the first \<^verbatim>\<open><@\<close> and \<open>rfind x\<close> the index of the last \<open>x\<close>.
\<close>

fun find_mention :: "string \<Rightarrow> nat option" where
  "find_mention (a # b # cs) =
     (if a = CHR ''<'' \<and> b = CHR ''@'' then Some 0 else map_option Suc (find_mention (b # cs)))"
| "find_mention _ = None"

fun rfind :: "char \<Rightarrow> string \<Rightarrow> nat option" where
  "rfind x [] = None"
| "rfind x (c # cs) =
     (case rfind x cs of Some j \<Rightarrow> Some (Suc j) | None \<Rightarrow> if c = x then Some 0 else None)"

definition strip_mention_spec :: "string \<Rightarrow> string" where
  "strip_mention_spec s =
     (case find_mention s of
        None \<Rightarrow> s
      | Some i \<Rightarrow>
          (case rfind CHR ''>'' s of
             None \<Rightarrow> s
           | Some j \<Rightarrow> if i + 2 \<le> j then take i s @ drop (Suc j) s else s))"

subsection \<open>The outside world of a turn\<close>

text \<open>What a chain returns: the answer chain a string, the retriever a list of documents.\<close>

datatype pyval = Str string | Documents "string list"

datatype msg = HumanMessage string | AIMessage pyval

text \<open>
  The calls a turn makes to its collaborators, in the order it makes them: \<^verbatim>\<open>say\<close> (text and
  \<^verbatim>\<open>thread_ts\<close>), \<^verbatim>\<open>chat_update\<close>, \<^verbatim>\<open>history.messages\<close>, \<^verbatim>\<open>add_user_message\<close> and
  \<^verbatim>\<open>add_ai_message\<close> (each with the key of the history object), the invocation of the chain
  (its input and the history it is given), and \<^verbatim>\<open>logger.info\<close>.
\<close>

datatype effect =
    Say string string
  | ChatUpdate edit
  | HistoryRead string
  | Invoke string "msg list"
  | AddUser string string
  | AddAI string pyval
  | Log string

text \<open>The history store (a transcript for every key, empty when there is none) and the calls made so far.\<close>

record world =
  store :: "string \<Rightarrow> msg list"
  trace :: "effect list"

text \<open>
  What the answer model does in one generation: the tokens it streams, then either it
  finishes (\<^verbatim>\<open>on_llm_end\<close> is called; the flag tells whether that edit call returns) or the
  generation raises.
\<close>

datatype ending = Finished bool | Failed

record generation =
  ticks :: "tick list"
  ending :: ending

text \<open>
  The collaborators of a turn, none of them code of this program: the process environment,
  \<^verbatim>\<open>int\<close> on a string, the \<^verbatim>\<open>say\<close> utility (its result, a dict, or an error), the answer model
  behind \<^verbatim>\<open>qa_chain\<close> (for an input and a history), the chain built by
  \<^verbatim>\<open>create_history_aware_retriever\<close>, and what the caller of the callbacks does with an
  exception that leaves one.
\<close>

record deps =
  environ :: "string \<rightharpoonup> string"
  py_int :: "string \<Rightarrow> int option"
  say :: "string \<Rightarrow> string \<Rightarrow> error + (string \<rightharpoonup> string)"
  qa_llm :: "string \<Rightarrow> msg list \<Rightarrow> generation"
  rephrase_chain :: "pyval \<Rightarrow> error + pyval"
  raise_error :: bool

text \<open>\<^verbatim>\<open>d[k]\<close> on a dict: the value, or \<^verbatim>\<open>KeyError\<close>.\<close>

definition getitem :: "(string \<rightharpoonup> string) \<Rightarrow> string \<Rightarrow> error + string" where
  "getitem d k = (case d k of None \<Rightarrow> Inl (KeyError k) | Some v \<Rightarrow> Inr v)"

subsection \<open>The steps of \<^verbatim>\<open>handle_mention\<close>\<close>

text \<open>
  Lines 77 to 84: the channel, the thread to answer in (\<^verbatim>\<open>event["ts"]\<close>), the message without
  the mention, and the key of the history: \<^verbatim>\<open>event["ts"]\<close>, replaced by \<^verbatim>\<open>event["thread_ts"]\<close>
  when the event has that field.
\<close>

definition read_event :: "(string \<rightharpoonup> string) \<Rightarrow> error + (string \<times> string \<times> string \<times> string)" where
  "read_event event =
     (case getitem event ''channel'' of Inl e \<Rightarrow> Inl e | Inr channel' \<Rightarrow>
     (case getitem event ''ts'' of Inl e \<Rightarrow> Inl e | Inr thread_ts \<Rightarrow>
     (case getitem event ''text'' of Inl e \<Rightarrow> Inl e | Inr text \<Rightarrow>
        (let message' = re_sub_mention text;
             id_ts = thread_ts;
             id_ts = (case event ''thread_ts'' of Some t \<Rightarrow> t | None \<Rightarrow> id_ts)
         in Inr (channel', thread_ts, message', id_ts)))))"

text \<open>Lines 86 and 87: the placeholder is posted and its timestamp read from the result.\<close>

definition post_placeholder :: "deps \<Rightarrow> string \<Rightarrow> world \<Rightarrow> world \<times> (error + string)" where
  "post_placeholder d thread_ts w =
     (let w1 = w\<lparr>trace := trace w @ [Say typing_marker thread_ts]\<rparr> in
      case say d typing_marker thread_ts of
        Inl e \<Rightarrow> (w1, Inl e)
      | Inr result \<Rightarrow> (w1, getitem result ''ts''))"

text \<open>
  Lines 89 to 123 read the environment while they build the history object, the vector
  store and the two models; a missing variable raises \<^verbatim>\<open>KeyError\<close>, a time-to-live that is
  no integer \<^verbatim>\<open>ValueError\<close>. The result is the time-to-live in hours.
\<close>

definition read_environ :: "deps \<Rightarrow> error + int" where
  "read_environ d =
     (case getitem (environ d) ''MOMENTO_CACHE'' of Inl e \<Rightarrow> Inl e | Inr cache \<Rightarrow>
     (case getitem (environ d) ''MOMENTO_TTL'' of Inl e \<Rightarrow> Inl e | Inr ttl \<Rightarrow>
     (case py_int d ttl of None \<Rightarrow> Inl (ValueError ttl) | Some hours \<Rightarrow>
     (case getitem (environ d) ''PINECONE_INDEX'' of Inl e \<Rightarrow> Inl e | Inr index_name \<Rightarrow>
     (case getitem (environ d) ''OPENAI_API_MODEL'' of Inl e \<Rightarrow> Inl e | Inr model_name \<Rightarrow>
     (case getitem (environ d) ''OPENAI_API_TEMPERATURE'' of Inl e \<Rightarrow> Inl e
      | Inr temperature \<Rightarrow> Inr hours))))))"

text \<open>
  \<^verbatim>\<open>qa_chain\<close> is the prompt, the streaming model with the callback, and the string parser.
  The model streams its tokens through the callback; the chain returns the text of the
  generated message, the tokens put together.
\<close>

definition qa_chain ::
    "deps \<Rightarrow> real \<Rightarrow> handler \<Rightarrow> string \<Rightarrow> msg list \<Rightarrow> edit list \<times> (error + pyval)" where
  "qa_chain d cls_time callback input chat_history =
     (let g = qa_llm d input chat_history in
      case deliver (raise_error d) cls_time callback (ticks g) of
        (self, calls, Raised e) \<Rightarrow> (calls, Inl e)
      | (self, calls, Returned) \<Rightarrow>
          (case ending g of
             Failed \<Rightarrow> (calls, Inl ChainError)
           | Finished ok \<Rightarrow>
               (case on_llm_end self ok of
                  (self', calls', r) \<Rightarrow>
                    (case r of
                       Raised e \<Rightarrow>
                         if raise_error d then (calls @ calls', Inl e)
                         else (calls @ calls', Inr (Str (concat (map tok (ticks g)))))
                     | Returned \<Rightarrow> (calls @ calls', Inr (Str (concat (map tok (ticks g)))))))))"

text \<open>
  Line 125: \<^verbatim>\<open>conversational_chain = (qa_chain | rephrase_chain)\<close>. Invoking a sequence
  invokes its first part on the input and its second part on what the first returns.
\<close>

definition conversational_chain ::
    "deps \<Rightarrow> real \<Rightarrow> handler \<Rightarrow> string \<Rightarrow> msg list \<Rightarrow> edit list \<times> (error + pyval)" where
  "conversational_chain d cls_time callback input chat_history =
     (case qa_chain d cls_time callback input chat_history of
        (calls, Inl e) \<Rightarrow> (calls, Inl e)
      | (calls, Inr answer) \<Rightarrow> (calls, rephrase_chain d answer))"

text \<open>\<^verbatim>\<open>history.add_user_message\<close> and \<^verbatim>\<open>history.add_ai_message\<close> on the history with key \<open>k\<close>.\<close>

definition add_user_message :: "string \<Rightarrow> string \<Rightarrow> world \<Rightarrow> world" where
  "add_user_message k text w =
     w\<lparr>store := (store w)(k := store w k @ [HumanMessage text]),
       trace := trace w @ [AddUser k text]\<rparr>"

definition add_ai_message :: "string \<Rightarrow> pyval \<Rightarrow> world \<Rightarrow> world" where
  "add_ai_message k v w =
     w\<lparr>store := (store w)(k := store w k @ [AIMessage v]),
       trace := trace w @ [AddAI k v]\<rparr>"

text \<open>\<^verbatim>\<open>handle_mention(event, say)\<close>: the world after the turn and how the function ended.\<close>

definition handle_mention :: "deps \<Rightarrow> real \<Rightarrow> (string \<rightharpoonup> string) \<Rightarrow> world \<Rightarrow> world \<times> outcome" where
  "handle_mention d cls_time event w =
     (case read_event event of
        Inl e \<Rightarrow> (w, Raised e)
      | Inr (channel', thread_ts, message', id_ts) \<Rightarrow>
     (case post_placeholder d thread_ts w of
        (w1, Inl e) \<Rightarrow> (w1, Raised e)
      | (w1, Inr ts') \<Rightarrow>
     (case read_environ d of
        Inl e \<Rightarrow> (w1, Raised e)
      | Inr hours \<Rightarrow>
     (let callback = init channel' ts';
          chat_history = store w1 id_ts;
          w2 = w1\<lparr>trace := trace w1 @ [HistoryRead id_ts, Invoke message' chat_history]\<rparr>
      in case conversational_chain d cls_time callback message' chat_history of
           (calls, r) \<Rightarrow>
             (let w3 = w2\<lparr>trace := trace w2 @ map ChatUpdate calls\<rparr> in
              case r of
                Inl e \<Rightarrow> (w3, Raised e)
              | Inr ai_message \<Rightarrow>
                  (add_ai_message id_ts ai_message (add_user_message id_ts message' w3),
                   Returned))))))"

subsection \<open>Reading a trace\<close>

text \<open>
  The keys of the history calls of a trace, the inputs of its chain invocations and the
  texts of its \<^verbatim>\<open>add_user_message\<close> calls, each in the order of the calls.
\<close>

fun history_key :: "effect \<Rightarrow> string option" where
  "history_key (HistoryRead k) = Some k"
| "history_key (AddUser k text) = Some k"
| "history_key (AddAI k v) = Some k"
| "history_key _ = None"

definition history_keys :: "effect list \<Rightarrow> string list" where
  "history_keys tr = List.map_filter history_key tr"

fun invoke_input :: "effect \<Rightarrow> string option" where
  "invoke_input (Invoke q h) = Some q"
| "invoke_input _ = None"

fun user_text :: "effect \<Rightarrow> string option" where
  "user_text (AddUser k t) = Some t"
| "user_text _ = None"

section \<open>The request handler of the serverless deployment\<close>

text \<open>
  The event of a request, as far as \<^verbatim>\<open>handler\<close> reads it: the \<^verbatim>\<open>headers\<close> entry, a dict, if the
  event has one. What \<^verbatim>\<open>handler\<close> returns is the integer of its early exit or the response
  of the adapter, \<^verbatim>\<open>SlackRequestHandler(app=app).handle\<close>, which is a parameter here.
\<close>

record request =
  headers :: "(string \<rightharpoonup> string) option"
  body :: string

datatype 'a response = Status int | Adapter 'a

definition handler ::
    "(request \<Rightarrow> world \<Rightarrow> world \<times> (error + 'a)) \<Rightarrow> request \<Rightarrow> world
       \<Rightarrow> world \<times> (error + 'a response)" where
  "handler slack_handle event w =
     (let w0 = w\<lparr>trace := trace w @ [Log ''handler called'']\<rparr> in
      case headers event of
        None \<Rightarrow> (w0, Inl (KeyError ''headers''))
      | Some header \<Rightarrow>
          if header ''x-slack-retry-num'' \<noteq> None then (w0, Inr (Status 200))
          else (case slack_handle event w0 of
                  (w1, Inl e) \<Rightarrow> (w1, Inl e)
                | (w1, Inr resp) \<Rightarrow> (w1, Inr (Adapter resp))))"

section \<open>Example inputs\<close>

text \<open>
  Five tokens spelling \<^verbatim>\<open>Hello, world!\<close>; the module is loaded at time 0 and the fourth token
  is the first to arrive more than one second later. Every edit call returns.
\<close>

definition hello_world :: "tick list" where
  "hello_world =
     [\<lparr>tok = ''Hel'', clock = 0.3, edit_ok = True\<rparr>,
      \<lparr>tok = ''lo'', clock = 0.6, edit_ok = True\<rparr>,
      \<lparr>tok = '', '', clock = 0.9, edit_ok = True\<rparr>,
      \<lparr>tok = ''world'', clock = 1.2, edit_ok = True\<rparr>,
      \<lparr>tok = ''!'', clock = 1.4, edit_ok = True\<rparr>]"

text \<open>Eleven tokens, two seconds apart: each of them is published.\<close>

definition eleven :: "tick list" where
  "eleven = map (\<lambda>k. \<lparr>tok = ''x'', clock = 2 * real k, edit_ok = True\<rparr>) [1..<12]"

text \<open>
  A turn: every variable of the environment is set, the placeholder gets the timestamp
  \<^verbatim>\<open>100.5\<close>, the answer model streams \<open>hello_world\<close>, the retriever chain returns one
  document, and the caller of the callbacks discards their errors. \<open>mention\<close> is a first
  mention in a channel, \<open>reply\<close> the same message inside the thread \<^verbatim>\<open>90.0\<close>.
\<close>

definition example_deps :: deps where
  "example_deps =
     \<lparr>environ = [''MOMENTO_CACHE'' \<mapsto> ''cache'', ''MOMENTO_TTL'' \<mapsto> ''1'',
                 ''PINECONE_INDEX'' \<mapsto> ''index'', ''OPENAI_API_MODEL'' \<mapsto> ''model'',
                 ''OPENAI_API_TEMPERATURE'' \<mapsto> ''0''],
      py_int = (\<lambda>s. if s = ''1'' then Some 1 else None),
      say = (\<lambda>text thread_ts. Inr [''ts'' \<mapsto> ''100.5'']),
      qa_llm = (\<lambda>input chat_history. \<lparr>ticks = hello_world, ending = Finished True\<rparr>),
      rephrase_chain = (\<lambda>answer. Inr (Documents [''passage''])),
      raise_error = False\<rparr>"

definition mention :: "string \<rightharpoonup> string" where
  "mention = [''channel'' \<mapsto> ''C'', ''ts'' \<mapsto> ''100.0'', ''text'' \<mapsto> ''<@U1> hi'']"

definition reply :: "string \<rightharpoonup> string" where
  "reply = mention(''thread_ts'' \<mapsto> ''90.0'')"

definition no_history :: world where
  "no_history = \<lparr>store = (\<lambda>k. []), trace = []\<rparr>"

section \<open>Properties of the handler\<close>

subsection \<open>One call of \<^verbatim>\<open>on_llm_new_token\<close>\<close>

lemma on_llm_new_token_message:
  "on_llm_new_token c h t n ok = (h', calls, r) \<Longrightarrow> message h' = message h @ t"
  by (auto simp: on_llm_new_token_def Let_def message_def split: if_splits)

lemma on_llm_new_token_target:
  "on_llm_new_token c h t n ok = (h', calls, r) \<Longrightarrow> channel h' = channel h \<and> ts h' = ts h"
  by (auto simp: on_llm_new_token_def Let_def split: if_splits)

lemma on_llm_new_token_calls:
  "on_llm_new_token c h t n ok = (h', calls, r) \<Longrightarrow>
   calls = (if n - last_send_time c h > real_of_int (interval h)
            then [\<lparr>e_channel = channel h, e_ts = ts h, e_text = message h @ t @ typing_marker\<rparr>]
            else [])"
  by (auto simp: on_llm_new_token_def Let_def message_def last_send_time_def split: if_splits)

lemma on_llm_new_token_last_send_time:
  "on_llm_new_token c h t now ok = (h', calls, r) \<Longrightarrow>
   last_send_time c h' =
     (if now - last_send_time c h > real_of_int (interval h) \<and> ok then now
      else last_send_time c h)"
  by (auto simp: on_llm_new_token_def Let_def last_send_time_def split: if_splits)

lemma on_llm_new_token_interval:
  "on_llm_new_token c h t n ok = (h', calls, r) \<Longrightarrow> 0 \<le> interval h \<Longrightarrow> interval h \<le> interval h'"
  by (auto simp: on_llm_new_token_def Let_def split: if_splits)

lemma unmark_marked: "unmark (m @ typing_marker) = m"
  by (simp add: unmark_def)

subsection \<open>A sequence of calls\<close>

text \<open>The two ways a delivery of \<open>e # es\<close> can go: it stops at \<open>e\<close>, or it goes on with \<open>es\<close>.\<close>

lemma deliver_ConsE:
  assumes "deliver re c h (e # es) = (h', calls, r)"
  obtains (stop) "on_llm_new_token c h (tok e) (clock e) (edit_ok e) = (h', calls, r)"
      and "r \<noteq> Returned" and "re"
  | (go) h1 calls1 r1 calls2
    where "on_llm_new_token c h (tok e) (clock e) (edit_ok e) = (h1, calls1, r1)"
      and "deliver re c h1 es = (h', calls2, r)" and "calls = calls1 @ calls2"
      and "r1 = Returned \<or> \<not> re"
  using assms by (auto split: prod.splits if_splits)

lemma deliver_message:
  "deliver re c h es = (h', calls, Returned) \<Longrightarrow> message h' = message h @ concat (map tok es)"
proof (induction es arbitrary: h calls)
  case (Cons e es)
  from Cons.prems show ?case
  proof (cases rule: deliver_ConsE)
    case (go h1 calls1 r1 calls2)
    then show ?thesis
      using Cons.IH [of h1 calls2] on_llm_new_token_message [of c h "tok e" "clock e" "edit_ok e"]
      by simp
  qed simp
qed simp

lemma deliver_target:
  "deliver re c h es = (h', calls, r) \<Longrightarrow> channel h' = channel h \<and> ts h' = ts h"
proof (induction es arbitrary: h calls)
  case (Cons e es)
  from Cons.prems show ?case
    by (cases rule: deliver_ConsE) (use Cons.IH on_llm_new_token_target in fastforce)+
qed simp

lemma deliver_marked:
  "deliver re c h es = (h', calls, r) \<Longrightarrow> list_all (\<lambda>e. suffix typing_marker (e_text e)) calls"
proof (induction es arbitrary: h calls)
  case (Cons e es)
  from Cons.prems show ?case
  proof (cases rule: deliver_ConsE)
    case stop
    then show ?thesis by (auto dest!: on_llm_new_token_calls simp: suffix_def)
  next
    case (go h1 calls1 r1 calls2)
    then show ?thesis using Cons.IH [of h1 calls2]
      by (auto dest!: on_llm_new_token_calls simp: suffix_def)
  qed
qed simp

lemma deliver_no_raise: "deliver False c h es = (h', calls, r) \<Longrightarrow> r = Returned"
  by (induction es arbitrary: h calls) (auto split: prod.splits)

lemma deliver_interval:
  "deliver re c h es = (h', calls, r) \<Longrightarrow> 0 \<le> interval h \<Longrightarrow> interval h \<le> interval h'"
proof (induction es arbitrary: h calls)
  case (Cons e es)
  from Cons.prems(1) show ?case
  proof (cases rule: deliver_ConsE)
    case stop
    then show ?thesis using on_llm_new_token_interval Cons.prems(2) by blast
  next
    case (go h1 calls1 r1 calls2)
    with on_llm_new_token_interval [OF go(1) Cons.prems(2)] Cons.IH [of h1 calls2] Cons.prems(2)
    show ?thesis by simp
  qed
qed simp

text \<open>
  Every text published after a point of the session extends the text accumulated at that
  point, and the published texts extend one another in the order of their publication.
\<close>

lemma deliver_growing:
  "deliver re c h es = (h', calls, r) \<Longrightarrow>
   list_all (\<lambda>e. prefix (message h) (unmark (e_text e))) calls \<and>
   sorted_wrt (\<lambda>a b. prefix (unmark (e_text a)) (unmark (e_text b))) calls"
proof (induction es arbitrary: h calls)
  case (Cons e es)
  from Cons.prems show ?case
  proof (cases rule: deliver_ConsE)
    case stop
    then show ?thesis
      using unmark_marked [of "message h @ tok e"]
      by (auto dest!: on_llm_new_token_calls)
  next
    case (go h1 calls1 r1 calls2)
    have m: "message h1 = message h @ tok e"
      using on_llm_new_token_message [OF go(1)] .
    have ih: "list_all (\<lambda>e. prefix (message h1) (unmark (e_text e))) calls2"
      "sorted_wrt (\<lambda>a b. prefix (unmark (e_text a)) (unmark (e_text b))) calls2"
      using Cons.IH [OF go(2)] by simp_all
    have later: "list_all (\<lambda>e. prefix (message h) (unmark (e_text e))) calls2"
      using ih(1) unfolding m list_all_iff by (auto dest: append_prefixD)
    show ?thesis
    proof (cases "clock e - last_send_time c h > real_of_int (interval h)")
      case True
      then have c1: "calls1 = [\<lparr>e_channel = channel h, e_ts = ts h,
                               e_text = (message h @ tok e) @ typing_marker\<rparr>]"
        using on_llm_new_token_calls [OF go(1)] by simp
      show ?thesis
        using ih later unfolding go(3) c1 m list_all_iff
        by (simp add: unmark_marked del: append_assoc)
    next
      case False
      then have "calls1 = []" using on_llm_new_token_calls [OF go(1)] by simp
      then show ?thesis using ih(2) later go(3) by simp
    qed
  qed
qed simp

text \<open>Evaluation of the handler on concrete inputs.\<close>

lemmas handler_eval =
  on_llm_new_token_def on_llm_end_def session_def init_def Let_def message_def
  last_send_time_def cls_message_def CHAT_UPDATE_INTERVAL_SEC_def

lemma deliver_hello_world:
  "deliver True 0 (init ''C'' ''1'') hello_world =
     (\<lparr>channel = ''C'', ts = ''1'', interval = 1, update_count = 1,
       inst_last_send_time = Some (6 / 5), inst_message = Some ''Hello, world!''\<rparr>,
      [\<lparr>e_channel = ''C'', e_ts = ''1'', e_text = ''Hello, world'' @ typing_marker\<rparr>],
      Returned)"
  by (simp add: hello_world_def handler_eval)

lemma deliver_eleven:
  "deliver True 0 (init ''C'' ''1'') eleven =
     (\<lparr>channel = ''C'', ts = ''1'', interval = 2, update_count = 11,
       inst_last_send_time = Some 22, inst_message = Some ''xxxxxxxxxxx''\<rparr>,
      map (\<lambda>k. \<lparr>e_channel = ''C'', e_ts = ''1'', e_text = replicate k CHR ''x'' @ typing_marker\<rparr>)
        [1..<12], Returned)"
  by (simp add: eleven_def handler_eval upt_rec)

subsection \<open>The terminal publish\<close>

text \<open>
  Claim C1. For every sequence of tokens delivered to one session, the empty one included,
  \<^verbatim>\<open>on_llm_end\<close> makes exactly one edit call; its text is the tokens put together in the order
  they arrived, with nothing added, and it is the last call of the session. Every call
  before it, made by \<^verbatim>\<open>on_llm_new_token\<close>, ends in the in-progress marker. This holds whether
  or not the edit calls return, as long as all the tokens were delivered.
\<close>

theorem terminal_publish:
  "deliver re c (init ch t) es = (h, calls, Returned) \<Longrightarrow>
   session re c ch t es end_ok =
     (h, calls @ [\<lparr>e_channel = ch, e_ts = t, e_text = concat (map tok es)\<rparr>],
      if end_ok then Returned else Raised SlackApiError) \<and>
   list_all (\<lambda>e. suffix typing_marker (e_text e)) calls"
proof -
  assume d: "deliver re c (init ch t) es = (h, calls, Returned)"
  have "message h = concat (map tok es)"
    using deliver_message [OF d] by (simp add: message_def init_def cls_message_def)
  moreover have "channel h = ch" "ts h = t"
    using deliver_target [OF d] by (simp_all add: init_def)
  ultimately show ?thesis
    using d deliver_marked [OF d] by (simp add: session_def on_llm_end_def)
qed

theorem terminal_publish_witness:
  "fst (snd (session True 0 ''C'' ''1'' hello_world True)) =
     [\<lparr>e_channel = ''C'', e_ts = ''1'', e_text = ''Hello, world'' @ typing_marker\<rparr>,
      \<lparr>e_channel = ''C'', e_ts = ''1'', e_text = ''Hello, world!''\<rparr>] \<and>
   fst (snd (session True 0 ''C'' ''1'' [] True)) =
     [\<lparr>e_channel = ''C'', e_ts = ''1'', e_text = []\<rparr>]"
proof -
  have "deliver True 0 (init ''C'' ''1'') [] = (init ''C'' ''1'', [], Returned)"
    by simp
  from terminal_publish [OF deliver_hello_world, of True] terminal_publish [OF this, of True]
  show ?thesis by (simp add: hello_world_def)
qed

subsection \<open>A publish that fails\<close>

text \<open>
  The handler class is a subclass of \<^verbatim>\<open>BaseCallbackHandler\<close> and the program never sets its
  \<^verbatim>\<open>raise_error\<close> attribute: the caller of the callbacks discards an exception that leaves
  one and goes on. The sessions of the program are those with \<open>raise_error = False\<close>.

  Claim C3. When the edit call of an interval-gated publish raises, at whatever point of
  the stream, the callback ends by raising, and the consumption of the stream is not
  aborted: the delivery of the whole stream returns, the accumulated text is all the tokens
  put together, the failing one and those after it included, and the session ends with the
  terminal publish of that full text.
\<close>

theorem publish_failure:
  assumes "deliver False c (init ch t0) es1 = (h1, calls1, r1)"
    and "clock e - last_send_time c h1 > real_of_int (interval h1)"
    and "\<not> edit_ok e"
  shows "snd (snd (on_llm_new_token c h1 (tok e) (clock e) (edit_ok e))) = Raised SlackApiError \<and>
         snd (snd (deliver False c (init ch t0) (es1 @ e # es2))) = Returned \<and>
         message (fst (deliver False c (init ch t0) (es1 @ e # es2))) =
           concat (map tok (es1 @ e # es2)) \<and>
         session False c ch t0 (es1 @ e # es2) end_ok =
           (fst (deliver False c (init ch t0) (es1 @ e # es2)),
            fst (snd (deliver False c (init ch t0) (es1 @ e # es2))) @
              [\<lparr>e_channel = ch, e_ts = t0, e_text = concat (map tok (es1 @ e # es2))\<rparr>],
            if end_ok then Returned else Raised SlackApiError)"
proof -
  obtain hN calls r where d: "deliver False c (init ch t0) (es1 @ e # es2) = (hN, calls, r)"
    using prod_cases3 by blast
  then have d': "deliver False c (init ch t0) (es1 @ e # es2) = (hN, calls, Returned)"
    using deliver_no_raise by blast
  have "snd (snd (on_llm_new_token c h1 (tok e) (clock e) (edit_ok e))) = Raised SlackApiError"
    using assms(2,3) by (simp add: on_llm_new_token_def Let_def last_send_time_def)
  moreover have "message hN = concat (map tok (es1 @ e # es2))"
    using deliver_message [OF d'] by (simp add: message_def init_def cls_message_def)
  moreover have "channel hN = ch" "ts hN = t0"
    using deliver_target [OF d'] by (simp_all add: init_def)
  ultimately show ?thesis
    unfolding session_def d' by (simp add: on_llm_end_def)
qed

theorem publish_failure_witness:
  "session False 0 ''C'' ''1''
     [\<lparr>tok = ''a'', clock = 2, edit_ok = False\<rparr>, \<lparr>tok = ''b'', clock = 3, edit_ok = True\<rparr>] True =
     (\<lparr>channel = ''C'', ts = ''1'', interval = 1, update_count = 1,
       inst_last_send_time = Some 3, inst_message = Some ''ab''\<rparr>,
      [\<lparr>e_channel = ''C'', e_ts = ''1'', e_text = ''a'' @ typing_marker\<rparr>,
       \<lparr>e_channel = ''C'', e_ts = ''1'', e_text = ''ab'' @ typing_marker\<rparr>,
       \<lparr>e_channel = ''C'', e_ts = ''1'', e_text = ''ab''\<rparr>],
      Returned)"
proof -
  have 1: "deliver False 0 (init ''C'' ''1'') [] = (init ''C'' ''1'', [], Returned)"
    by simp
  have 2: "clock \<lparr>tok = ''a'', clock = 2, edit_ok = False\<rparr> - last_send_time 0 (init ''C'' ''1'')
             > real_of_int (interval (init ''C'' ''1''))"
    by (simp add: handler_eval)
  have 3: "\<not> edit_ok \<lparr>tok = ''a'', clock = 2, edit_ok = False\<rparr>"
    by simp
  from publish_failure [OF 1 2 3, of "[\<lparr>tok = ''b'', clock = 3, edit_ok = True\<rparr>]" True]
  show ?thesis by (simp add: handler_eval)
qed

subsection \<open>The first publish\<close>

text \<open>
  Claim C4 says that \<^verbatim>\<open>last_send_time\<close> starts at the time the session starts, so that no
  publish is triggered by time that passed before the session was created. The constructor
  does not read the clock: until the first publish, \<^verbatim>\<open>last_send_time\<close> is the attribute of the
  class, the time the module was loaded. With the module loaded at time 0 and a handler
  constructed at time 100, the first token, arriving at time 100.01, is published at once.
\<close>

theorem first_token_stale_clock:
  "on_llm_new_token 0 (init ''C'' ''1'') ''Hi'' 100.01 True =
     (\<lparr>channel = ''C'', ts = ''1'', interval = 1, update_count = 1,
       inst_last_send_time = Some 100.01, inst_message = Some ''Hi''\<rparr>,
      [\<lparr>e_channel = ''C'', e_ts = ''1'', e_text = ''Hi'' @ typing_marker\<rparr>], Returned)"
  by (simp add: handler_eval)

subsection \<open>The backoff\<close>

text \<open>
  Claim C5. A call of \<^verbatim>\<open>on_llm_new_token\<close> whose publish is made and returns adds one to
  \<^verbatim>\<open>update_count\<close> and then doubles \<^verbatim>\<open>interval\<close> exactly when the new \<^verbatim>\<open>update_count / 10\<close> is
  greater than \<^verbatim>\<open>interval\<close>; every other call of \<^verbatim>\<open>on_llm_new_token\<close> leaves both as they
  were, and so does \<^verbatim>\<open>on_llm_end\<close>.
\<close>

theorem backoff_rule:
  "on_llm_new_token c h t now ok = (h', calls, r) \<Longrightarrow>
   (if now - last_send_time c h > real_of_int (interval h) \<and> ok
    then update_count h' = update_count h + 1 \<and>
         interval h' =
           (if real_of_int (update_count h') / 10 > real_of_int (interval h)
            then interval h * 2 else interval h)
    else update_count h' = update_count h \<and> interval h' = interval h) \<and>
   fst (on_llm_end h' ok') = h'"
  by (auto simp: on_llm_new_token_def on_llm_end_def Let_def last_send_time_def split: if_splits)

theorem backoff_rule_witness:
  "interval (fst (on_llm_new_token 0 ((init ''C'' ''1'')\<lparr>update_count := 10\<rparr>) ''x'' 5 True)) = 2 \<and>
   interval (fst (on_llm_new_token 0 ((init ''C'' ''1'')\<lparr>update_count := 9\<rparr>) ''x'' 5 True)) = 1 \<and>
   interval (fst (on_llm_new_token 0 ((init ''C'' ''1'')\<lparr>update_count := 10\<rparr>) ''x'' 1 True)) = 1"
proof -
  obtain h1 c1 r1 where 1:
    "on_llm_new_token 0 ((init ''C'' ''1'')\<lparr>update_count := 10\<rparr>) ''x'' 5 True = (h1, c1, r1)"
    using prod_cases3 by blast
  obtain h2 c2 r2 where 2:
    "on_llm_new_token 0 ((init ''C'' ''1'')\<lparr>update_count := 9\<rparr>) ''x'' 5 True = (h2, c2, r2)"
    using prod_cases3 by blast
  obtain h3 c3 r3 where 3:
    "on_llm_new_token 0 ((init ''C'' ''1'')\<lparr>update_count := 10\<rparr>) ''x'' 1 True = (h3, c3, r3)"
    using prod_cases3 by blast
  from backoff_rule [OF 1] backoff_rule [OF 2] backoff_rule [OF 3]
  show ?thesis unfolding 1 2 3
    by (simp add: init_def last_send_time_def CHAT_UPDATE_INTERVAL_SEC_def)
qed

text \<open>
  Claim C6. Over a session the interval never decreases: it is at least the base interval
  at any point, at any later point it is at least what it was, and \<^verbatim>\<open>on_llm_end\<close> leaves it
  as it is.
\<close>

theorem interval_monotone:
  "deliver re c (init ch t) es1 = (h1, calls1, r1) \<Longrightarrow>
   deliver re c h1 es2 = (h2, calls2, r2) \<Longrightarrow>
   CHAT_UPDATE_INTERVAL_SEC \<le> interval h1 \<and> interval h1 \<le> interval h2 \<and>
   interval (fst (on_llm_end h2 ok)) = interval h2"
proof -
  assume 1: "deliver re c (init ch t) es1 = (h1, calls1, r1)"
     and 2: "deliver re c h1 es2 = (h2, calls2, r2)"
  have a: "CHAT_UPDATE_INTERVAL_SEC \<le> interval h1"
    using deliver_interval [OF 1] by (simp add: init_def CHAT_UPDATE_INTERVAL_SEC_def)
  then have "0 \<le> interval h1" by (simp add: CHAT_UPDATE_INTERVAL_SEC_def)
  from deliver_interval [OF 2 this] a show ?thesis by (simp add: on_llm_end_def)
qed

theorem interval_monotone_witness:
  "interval (fst (deliver True 0 (init ''C'' ''1'') [])) = 1 \<and>
   interval (fst (deliver True 0 (init ''C'' ''1'') eleven)) = 2 \<and>
   interval (fst (deliver True 0 (init ''C'' ''1'') [])) \<le>
   interval (fst (deliver True 0 (init ''C'' ''1'') eleven))"
proof -
  have 1: "deliver True 0 (init ''C'' ''1'') [] = (init ''C'' ''1'', [], Returned)"
    by simp
  from interval_monotone [OF 1 deliver_eleven, of True]
  show ?thesis unfolding deliver_eleven by (simp add: init_def CHAT_UPDATE_INTERVAL_SEC_def)
qed

subsection \<open>The interval-gated publish\<close>

text \<open>
  Claim C9. A call of \<^verbatim>\<open>on_llm_new_token\<close> appends the token to the accumulated text; it
  makes an edit call exactly when the time since \<^verbatim>\<open>last_send_time\<close> is greater than the
  interval, with the accumulated text, the new token included, followed by the marker; and
  \<^verbatim>\<open>last_send_time\<close> becomes the current time when that call returns (it stays as it was when
  no call is made or the call raises). Over any sequence of calls, the published texts
  without their markers extend one another in the order of publication.
\<close>

theorem publish_rule:
  "on_llm_new_token c h t now ok = (h', calls, r) \<Longrightarrow>
   deliver re c h0 es = (hN, pubs, rN) \<Longrightarrow>
   message h' = message h @ t \<and>
   calls = (if now - last_send_time c h > real_of_int (interval h)
            then [\<lparr>e_channel = channel h, e_ts = ts h, e_text = message h' @ typing_marker\<rparr>]
            else []) \<and>
   last_send_time c h' =
     (if now - last_send_time c h > real_of_int (interval h) \<and> ok then now
      else last_send_time c h) \<and>
   sorted_wrt (\<lambda>a b. prefix (unmark (e_text a)) (unmark (e_text b))) pubs"
  using on_llm_new_token_message [of c h t now ok h' calls r]
    on_llm_new_token_calls [of c h t now ok h' calls r]
    on_llm_new_token_last_send_time [of c h t now ok h' calls r]
    deliver_growing [of re c h0 es hN pubs rN]
  by simp

theorem publish_rule_witness:
  "on_llm_new_token 0 ((init ''C'' ''1'')\<lparr>inst_message := Some ''Hello, ''\<rparr>) ''world'' 1.2 True =
     (\<lparr>channel = ''C'', ts = ''1'', interval = 1, update_count = 1,
       inst_last_send_time = Some 1.2, inst_message = Some ''Hello, world''\<rparr>,
      [\<lparr>e_channel = ''C'', e_ts = ''1'', e_text = ''Hello, world'' @ typing_marker\<rparr>],
      Returned) \<and>
   sorted_wrt (\<lambda>a b. prefix (unmark (e_text a)) (unmark (e_text b)))
     (fst (snd (deliver True 0 (init ''C'' ''1'') eleven)))"
proof -
  have 1:
    "on_llm_new_token 0 ((init ''C'' ''1'')\<lparr>inst_message := Some ''Hello, ''\<rparr>) ''world'' 1.2 True =
     (\<lparr>channel = ''C'', ts = ''1'', interval = 1, update_count = 1,
       inst_last_send_time = Some 1.2, inst_message = Some ''Hello, world''\<rparr>,
      [\<lparr>e_channel = ''C'', e_ts = ''1'', e_text = ''Hello, world'' @ typing_marker\<rparr>],
      Returned)"
    by (simp add: handler_eval)
  from publish_rule [OF 1 deliver_eleven] 1
  show ?thesis by (simp only: deliver_eleven fst_conv snd_conv simp_thms)
qed

section \<open>Properties of the mention pattern\<close>

lemma match_mention_no_gt: "CHR ''>'' \<notin> set s \<Longrightarrow> match_mention s = None"
proof (cases s rule: match_mention.cases)
  case (1 a b cs)
  assume "CHR ''>'' \<notin> set s"
  with 1 have "\<forall>c\<in>set (rev (takeWhile (\<lambda>c. c \<noteq> CHR 0x0A) cs)). c \<noteq> CHR ''>''"
    by (auto dest: set_takeWhileD)
  then have "dropWhile (\<lambda>c. c \<noteq> CHR ''>'') (rev (takeWhile (\<lambda>c. c \<noteq> CHR 0x0A) cs)) = []"
    by (simp only: dropWhile_eq_Nil_conv)
  with 1 show ?thesis by (simp add: Let_def)
qed simp_all

lemma re_sub_mention_no_gt: "CHR ''>'' \<notin> set s \<Longrightarrow> re_sub_mention s = s"
  by (induction s) (simp_all add: match_mention_no_gt)

lemma rfind_None: "rfind x s = None \<longleftrightarrow> x \<notin> set s"
  by (induction s) (auto split: option.splits)

lemma rfind_rev:
  "x \<in> set s \<Longrightarrow> rfind x s = Some (length (dropWhile (\<lambda>c. c \<noteq> x) (rev s)) - 1)"
proof (induction s)
  case (Cons c cs)
  show ?case
  proof (cases "x \<in> set cs")
    case True
    then have "dropWhile (\<lambda>c. c \<noteq> x) (rev cs) \<noteq> []"
      by auto
    with True Cons.IH show ?thesis
      by (cases "dropWhile (\<lambda>c. c \<noteq> x) (rev cs)") (auto simp: dropWhile_append)
  next
    case False
    then have "rfind x cs = None" by (simp add: rfind_None)
    moreover have "dropWhile (\<lambda>c. c \<noteq> x) (rev cs) = []"
      using False by auto
    ultimately show ?thesis using Cons.prems False by (auto simp: dropWhile_append)
  qed
qed simp

lemma drop_upto_last:
  "drop (length (dropWhile (\<lambda>c. c \<noteq> x) (rev s))) s = rev (takeWhile (\<lambda>c. c \<noteq> x) (rev s))"
proof -
  have "rev s = takeWhile (\<lambda>c. c \<noteq> x) (rev s) @ dropWhile (\<lambda>c. c \<noteq> x) (rev s)"
    by simp
  then have "s = rev (dropWhile (\<lambda>c. c \<noteq> x) (rev s)) @ rev (takeWhile (\<lambda>c. c \<noteq> x) (rev s))"
    by (metis rev_append rev_rev_ident)
  then show ?thesis
    by (metis append_eq_conv_conj length_rev)
qed

lemma no_gt_after_last:
  "CHR ''>'' \<notin> set (drop (length (dropWhile (\<lambda>c. c \<noteq> CHR ''>'') (rev s))) s)"
  unfolding drop_upto_last by (auto dest: set_takeWhileD)

lemma match_mention_line:
  assumes "CHR 0x0A \<notin> set cs" and "CHR ''>'' \<in> set cs"
  shows "match_mention (CHR ''<'' # CHR ''@'' # cs) =
           Some (2 + length (dropWhile (\<lambda>c. c \<noteq> CHR ''>'') (rev cs)))"
proof -
  have tw: "takeWhile (\<lambda>c. c \<noteq> CHR 0x0A) cs = cs"
    using assms(1) by auto
  have "dropWhile (\<lambda>c. c \<noteq> CHR ''>'') (rev cs) \<noteq> []"
    using assms(2) by auto
  then show ?thesis by (simp add: Let_def tw)
qed

lemma strip_mention_spec_Cons:
  assumes "\<not> (a = CHR ''<'' \<and> b = CHR ''@'')"
  shows "strip_mention_spec (a # b # cs) = a # strip_mention_spec (b # cs)"
  using assms
  by (auto simp: strip_mention_spec_def rfind_None split: option.splits)

lemma re_sub_mention_single_line:
  "CHR 0x0A \<notin> set s \<Longrightarrow> re_sub_mention s = strip_mention_spec s"
proof (induction s rule: find_mention.induct)
  case (1 a b cs)
  show ?case
  proof (cases "a = CHR ''<'' \<and> b = CHR ''@''")
    case False
    then have "match_mention (a # b # cs) = None" by auto
    with False 1 show ?thesis by (simp add: strip_mention_spec_Cons)
  next
    case True
    define k where "k = length (dropWhile (\<lambda>c. c \<noteq> CHR ''>'') (rev cs))"
    show ?thesis
    proof (cases "CHR ''>'' \<in> set cs")
      case gt: True
      have nl: "CHR 0x0A \<notin> set cs" using "1.prems" by simp
      have k: "0 < k"
        using gt unfolding k_def by auto
      have "re_sub_mention (a # b # cs) = re_sub_mention (drop k cs)"
        using True match_mention_line [OF nl gt] by (simp add: k_def)
      also have "\<dots> = drop k cs"
        unfolding k_def by (rule re_sub_mention_no_gt [OF no_gt_after_last])
      finally have l: "re_sub_mention (a # b # cs) = drop k cs" .
      have "rfind CHR ''>'' (a # b # cs) = Some (Suc (Suc (k - 1)))"
        using rfind_rev [OF gt] by (simp add: k_def)
      then have "strip_mention_spec (a # b # cs) = drop k cs"
        using True k by (simp add: strip_mention_spec_def)
      with l show ?thesis by simp
    next
      case False
      then have no: "CHR ''>'' \<notin> set (a # b # cs)" using True by auto
      then have "re_sub_mention (a # b # cs) = a # b # cs"
        by (rule re_sub_mention_no_gt)
      moreover from no have "rfind CHR ''>'' (a # b # cs) = None"
        by (rule rfind_None [THEN iffD2])
      ultimately show ?thesis by (simp add: strip_mention_spec_def True)
    qed
  qed
qed (simp_all add: strip_mention_spec_def)

lemma match_mention_length: "match_mention s = Some n \<Longrightarrow> n \<le> length s"
proof (cases s rule: match_mention.cases)
  case (1 a b cs)
  assume "match_mention s = Some n"
  with 1 have "n = 2 + length (dropWhile (\<lambda>c. c \<noteq> CHR ''>'') (rev (takeWhile (\<lambda>c. c \<noteq> CHR 0x0A) cs)))"
    by (auto simp: Let_def split: if_splits)
  moreover have "length (dropWhile (\<lambda>c. c \<noteq> CHR ''>'') (rev (takeWhile (\<lambda>c. c \<noteq> CHR 0x0A) cs))) \<le> length cs"
    using length_dropWhile_le [of "\<lambda>c. c \<noteq> CHR ''>''" "rev (takeWhile (\<lambda>c. c \<noteq> CHR 0x0A) cs)"]
      length_takeWhile_le [of "\<lambda>c. c \<noteq> CHR 0x0A" cs]
    by simp
  ultimately show ?thesis using 1 by simp
qed simp_all

lemma match_mention_line_end:
  assumes "CHR 0x0A \<notin> set l" and "l \<noteq> []"
  shows "match_mention (l @ CHR 0x0A # r) = match_mention l"
proof (cases l rule: match_mention.cases)
  case (1 a b cs)
  have tw: "takeWhile (\<lambda>c. c \<noteq> CHR 0x0A) cs = cs"
    using assms(1) 1 by auto
  have "takeWhile (\<lambda>c. c \<noteq> CHR 0x0A) (cs @ CHR 0x0A # r) = takeWhile (\<lambda>c. c \<noteq> CHR 0x0A) cs"
    by (rule takeWhile_tail) simp
  then show ?thesis using 1 by (simp add: Let_def tw)
qed (use assms in simp_all)

lemma match_mention_newline: "match_mention (CHR 0x0A # r) = None"
  by (cases r) simp_all

lemma re_sub_mention_lines:
  "CHR 0x0A \<notin> set l \<Longrightarrow>
   re_sub_mention (l @ CHR 0x0A # r) = re_sub_mention l @ CHR 0x0A # re_sub_mention r"
proof (induction l rule: re_sub_mention.induct)
  case 1
  show ?case by (simp add: match_mention_newline)
next
  case (2 c cs)
  have m: "match_mention ((c # cs) @ CHR 0x0A # r) = match_mention (c # cs)"
    using match_mention_line_end [of "c # cs" r] "2.prems" by simp
  show ?case
  proof (cases "match_mention (c # cs)")
    case None
    with m 2 show ?thesis by simp
  next
    case (Some n)
    have n: "n \<le> length (c # cs)" using match_mention_length [OF Some] .
    have d: "drop n ((c # cs) @ CHR 0x0A # r) = drop n (c # cs) @ CHR 0x0A # r"
      using n by (subst drop_append) simp
    have "CHR 0x0A \<notin> set (drop n (c # cs))"
      using "2.prems" by (meson in_set_dropD)
    note ih = "2.IH"(2) [OF Some this]
    have "re_sub_mention ((c # cs) @ CHR 0x0A # r) =
            re_sub_mention (drop n ((c # cs) @ CHR 0x0A # r))"
      using m Some by simp
    also have "\<dots> = re_sub_mention (drop n (c # cs)) @ CHR 0x0A # re_sub_mention r"
      unfolding d by (rule ih)
    also have "\<dots> = re_sub_mention (c # cs) @ CHR 0x0A # re_sub_mention r"
      using Some by simp
    finally show ?thesis .
  qed
qed

section \<open>Properties of the turn\<close>

lemma read_event_Inr:
  "read_event event = Inr (ch, s, q, k) \<longleftrightarrow>
   event ''channel'' = Some ch \<and> event ''ts'' = Some s \<and>
   (\<exists>x. event ''text'' = Some x \<and> q = re_sub_mention x) \<and>
   k = (case event ''thread_ts'' of Some t \<Rightarrow> t | None \<Rightarrow> s)"
  by (auto simp: read_event_def getitem_def Let_def split: option.splits)

lemma post_placeholder_trace:
  "post_placeholder d s w = (w1, r) \<Longrightarrow> w1 = w\<lparr>trace := trace w @ [Say typing_marker s]\<rparr>"
  by (auto simp: post_placeholder_def Let_def split: sum.splits)

lemma handle_mention_Returned:
  assumes "handle_mention d c event w = (w', Returned)"
  obtains ch s x ph calls ai
  where "event ''channel'' = Some ch" and "event ''ts'' = Some s" and "event ''text'' = Some x"
    and "conversational_chain d c (init ch ph) (re_sub_mention x)
           (store w (case event ''thread_ts'' of Some t \<Rightarrow> t | None \<Rightarrow> s)) = (calls, Inr ai)"
    and "w' = w\<lparr>store := (store w)((case event ''thread_ts'' of Some t \<Rightarrow> t | None \<Rightarrow> s) :=
                    store w (case event ''thread_ts'' of Some t \<Rightarrow> t | None \<Rightarrow> s) @
                    [HumanMessage (re_sub_mention x), AIMessage ai]),
                trace := trace w @
                  [Say typing_marker s,
                   HistoryRead (case event ''thread_ts'' of Some t \<Rightarrow> t | None \<Rightarrow> s),
                   Invoke (re_sub_mention x)
                     (store w (case event ''thread_ts'' of Some t \<Rightarrow> t | None \<Rightarrow> s))] @
                  map ChatUpdate calls @
                  [AddUser (case event ''thread_ts'' of Some t \<Rightarrow> t | None \<Rightarrow> s) (re_sub_mention x),
                   AddAI (case event ''thread_ts'' of Some t \<Rightarrow> t | None \<Rightarrow> s) ai]\<rparr>"
proof -
  from assms obtain ch s q k where re: "read_event event = Inr (ch, s, q, k)"
    by (auto simp: handle_mention_def split: sum.splits)
  then obtain x where ev: "event ''channel'' = Some ch" "event ''ts'' = Some s"
      "event ''text'' = Some x" and q: "q = re_sub_mention x"
      and k: "k = (case event ''thread_ts'' of Some t \<Rightarrow> t | None \<Rightarrow> s)"
    unfolding read_event_Inr by auto
  from assms re obtain w1 ph where pp: "post_placeholder d s w = (w1, Inr ph)"
    by (auto simp: handle_mention_def split: sum.splits prod.splits)
  then have w1: "w1 = w\<lparr>trace := trace w @ [Say typing_marker s]\<rparr>"
    by (rule post_placeholder_trace)
  from assms re pp obtain hours where env: "read_environ d = Inr hours"
    by (auto simp: handle_mention_def split: sum.splits)
  from assms re pp env obtain calls ai
    where cc: "conversational_chain d c (init ch ph) q (store w1 k) = (calls, Inr ai)"
    by (auto simp: handle_mention_def Let_def split: sum.splits prod.splits)
  from assms re pp env cc have
    "w' = add_ai_message k ai (add_user_message k q
            (w1\<lparr>trace := trace w1 @ [HistoryRead k, Invoke q (store w1 k)] @ map ChatUpdate calls\<rparr>))"
    by (simp add: handle_mention_def Let_def)
  then have "w' = w\<lparr>store := (store w)(k := store w k @ [HumanMessage q, AIMessage ai]),
                trace := trace w @ [Say typing_marker s, HistoryRead k, Invoke q (store w k)] @
                  map ChatUpdate calls @ [AddUser k q, AddAI k ai]\<rparr>"
    by (simp add: w1 add_ai_message_def add_user_message_def fun_upd_def fun_eq_iff)
  with that [OF ev] cc show thesis unfolding q k w1 by simp
qed

lemma history_keys_ChatUpdate: "List.map_filter history_key (map ChatUpdate calls) = []"
  by (induction calls) simp_all

lemma map_filter_append: "List.map_filter f (xs @ ys) = List.map_filter f xs @ List.map_filter f ys"
  by (simp add: map_filter_def)

lemma invoke_input_ChatUpdate: "List.map_filter invoke_input (map ChatUpdate calls) = []"
  by (induction calls) simp_all

lemma user_text_ChatUpdate: "List.map_filter user_text (map ChatUpdate calls) = []"
  by (induction calls) simp_all

text \<open>
  Whatever the outcome, the turn only adds to the trace; its history calls are about one
  key, and the transcripts of the other keys stay as they were.
\<close>

lemma handle_mention_keys:
  assumes "event ''ts'' = Some s" and "handle_mention d c event w = (w', r)"
    and "K = (case event ''thread_ts'' of Some t \<Rightarrow> t | None \<Rightarrow> s)"
  shows "\<exists>new. trace w' = trace w @ new \<and> set (history_keys new) \<subseteq> {K}"
    and "k \<noteq> K \<Longrightarrow> store w' k = store w k"
proof -
  show "\<exists>new. trace w' = trace w @ new \<and> set (history_keys new) \<subseteq> {K}"
  proof (cases "read_event event")
    case (Inl e)
    with assms(2) have "trace w' = trace w @ []" by (simp add: handle_mention_def)
    then show ?thesis by (auto simp: history_keys_def)
  next
    case (Inr t)
    then obtain ch s' q k' where re: "read_event event = Inr (ch, s', q, k')"
      by (cases t) auto
    then have k': "k' = K" and s': "s' = s"
      using assms(1,3) unfolding read_event_Inr by auto
    obtain w1 pr where pp: "post_placeholder d s w = (w1, pr)"
      by (cases "post_placeholder d s w") auto
    then have w1: "w1 = w\<lparr>trace := trace w @ [Say typing_marker s]\<rparr>"
      by (rule post_placeholder_trace)
    obtain calls cr where cc: "conversational_chain d c (init ch (projr pr)) q (store w1 K) = (calls, cr)"
      by (cases "conversational_chain d c (init ch (projr pr)) q (store w1 K)") auto
    from assms(2) re pp cc w1 show ?thesis
      unfolding k' s'
      by (cases pr; cases "read_environ d"; cases cr)
         (auto simp: handle_mention_def Let_def history_keys_def map_filter_append
            history_keys_ChatUpdate add_ai_message_def add_user_message_def)
  qed
next
  assume "k \<noteq> K"
  show "store w' k = store w k"
  proof (cases "read_event event")
    case (Inl e)
    with assms(2) show ?thesis by (simp add: handle_mention_def)
  next
    case (Inr t)
    then obtain ch s' q k' where re: "read_event event = Inr (ch, s', q, k')"
      by (cases t) auto
    then have k': "k' = K" and s': "s' = s"
      using assms(1,3) unfolding read_event_Inr by auto
    obtain w1 pr where pp: "post_placeholder d s w = (w1, pr)"
      by (cases "post_placeholder d s w") auto
    then have w1: "w1 = w\<lparr>trace := trace w @ [Say typing_marker s]\<rparr>"
      by (rule post_placeholder_trace)
    obtain calls cr where cc: "conversational_chain d c (init ch (projr pr)) q (store w1 K) = (calls, cr)"
      by (cases "conversational_chain d c (init ch (projr pr)) q (store w1 K)") auto
    from assms(2) re pp cc w1 \<open>k \<noteq> K\<close> show ?thesis
      unfolding k' s'
      by (cases pr; cases "read_environ d"; cases cr)
         (auto simp: handle_mention_def Let_def add_ai_message_def add_user_message_def)
  qed
qed

text \<open>Evaluation of the two example turns.\<close>

lemma re_sub_hi: "re_sub_mention ''<@U1> hi'' = '' hi''"
  by (simp add: Let_def)

lemmas turn_eval =
  handle_mention_def read_event_def getitem_def post_placeholder_def read_environ_def
  conversational_chain_def qa_chain_def add_user_message_def add_ai_message_def
  example_deps_def no_history_def

lemma deliver_hello_world_turn:
  "deliver False 0 (init ''C'' ''100.5'') hello_world =
     (\<lparr>channel = ''C'', ts = ''100.5'', interval = 1, update_count = 1,
       inst_last_send_time = Some (6 / 5), inst_message = Some ''Hello, world!''\<rparr>,
      [\<lparr>e_channel = ''C'', e_ts = ''100.5'', e_text = ''Hello, world'' @ typing_marker\<rparr>],
      Returned)"
  by (simp add: hello_world_def handler_eval)

lemma concat_hello_world: "concat (map tok hello_world) = ''Hello, world!''"
  by (simp add: hello_world_def)

lemma mention_turn:
  "handle_mention example_deps 0 mention no_history =
     (\<lparr>store = (\<lambda>k. [])(''100.0'' := [HumanMessage '' hi'', AIMessage (Documents [''passage''])]),
       trace =
         [Say typing_marker ''100.0'', HistoryRead ''100.0'', Invoke '' hi'' [],
          ChatUpdate \<lparr>e_channel = ''C'', e_ts = ''100.5'', e_text = ''Hello, world'' @ typing_marker\<rparr>,
          ChatUpdate \<lparr>e_channel = ''C'', e_ts = ''100.5'', e_text = ''Hello, world!''\<rparr>,
          AddUser ''100.0'' '' hi'', AddAI ''100.0'' (Documents [''passage''])]\<rparr>,
      Returned)"
  by (simp add: turn_eval mention_def re_sub_hi deliver_hello_world_turn on_llm_end_def message_def
      concat_hello_world Let_def)

lemma reply_turn:
  "handle_mention example_deps 0 reply no_history =
     (\<lparr>store = (\<lambda>k. [])(''90.0'' := [HumanMessage '' hi'', AIMessage (Documents [''passage''])]),
       trace =
         [Say typing_marker ''100.0'', HistoryRead ''90.0'', Invoke '' hi'' [],
          ChatUpdate \<lparr>e_channel = ''C'', e_ts = ''100.5'', e_text = ''Hello, world'' @ typing_marker\<rparr>,
          ChatUpdate \<lparr>e_channel = ''C'', e_ts = ''100.5'', e_text = ''Hello, world!''\<rparr>,
          AddUser ''90.0'' '' hi'', AddAI ''90.0'' (Documents [''passage''])]\<rparr>,
      Returned)"
  by (simp add: turn_eval reply_def mention_def re_sub_hi deliver_hello_world_turn on_llm_end_def
      message_def concat_hello_world Let_def)

subsection \<open>The key of the history\<close>

text \<open>
  Claim C7. In a turn for an event with timestamp \<open>s\<close>, every history call (the read of the
  transcript and the two appends) is made under the key \<open>K\<close>, which is the event's
  \<^verbatim>\<open>thread_ts\<close> when the event has one and \<open>s\<close> otherwise; a turn that returns makes exactly those
  three calls; and no transcript under another key is changed.
\<close>

theorem conversation_key:
  assumes "event ''ts'' = Some s" and "handle_mention d c event w = (w', r)"
    and "K = (case event ''thread_ts'' of Some T \<Rightarrow> T | None \<Rightarrow> s)"
  shows "list_all (\<lambda>k. k = K) (history_keys (drop (length (trace w)) (trace w'))) \<and>
         (r = Returned \<longrightarrow> history_keys (drop (length (trace w)) (trace w')) = [K, K, K]) \<and>
         (\<forall>k. k \<noteq> K \<longrightarrow> store w' k = store w k)"
proof (intro conjI allI impI)
  from handle_mention_keys(1) [OF assms] obtain new
    where "trace w' = trace w @ new" "set (history_keys new) \<subseteq> {K}" by blast
  then show "list_all (\<lambda>k. k = K) (history_keys (drop (length (trace w)) (trace w')))"
    by (auto simp: list_all_iff)
next
  assume "r = Returned"
  with assms(2) have "handle_mention d c event w = (w', Returned)" by simp
  then show "history_keys (drop (length (trace w)) (trace w')) = [K, K, K]"
  proof (rule handle_mention_Returned)
    fix ch s' x ph calls ai
    assume "event ''ts'' = Some s'"
    with assms(1) have s: "s' = s" by simp
    assume w': "w' = w\<lparr>store := (store w)((case event ''thread_ts'' of Some t \<Rightarrow> t | None \<Rightarrow> s') :=
                    store w (case event ''thread_ts'' of Some t \<Rightarrow> t | None \<Rightarrow> s') @
                    [HumanMessage (re_sub_mention x), AIMessage ai]),
                trace := trace w @
                  [Say typing_marker s',
                   HistoryRead (case event ''thread_ts'' of Some t \<Rightarrow> t | None \<Rightarrow> s'),
                   Invoke (re_sub_mention x)
                     (store w (case event ''thread_ts'' of Some t \<Rightarrow> t | None \<Rightarrow> s'))] @
                  map ChatUpdate calls @
                  [AddUser (case event ''thread_ts'' of Some t \<Rightarrow> t | None \<Rightarrow> s') (re_sub_mention x),
                   AddAI (case event ''thread_ts'' of Some t \<Rightarrow> t | None \<Rightarrow> s') ai]\<rparr>"
    show ?thesis
      unfolding w' s assms(3)
      by (simp add: history_keys_def map_filter_append history_keys_ChatUpdate)
  qed
next
  fix k assume "k \<noteq> K"
  then show "store w' k = store w k" by (rule handle_mention_keys(2) [OF assms])
qed

theorem conversation_key_witness:
  "history_keys (trace (fst (handle_mention example_deps 0 reply no_history))) =
     [''90.0'', ''90.0'', ''90.0''] \<and>
   history_keys (trace (fst (handle_mention example_deps 0 mention no_history))) =
     [''100.0'', ''100.0'', ''100.0'']"
proof -
  have 1: "reply ''ts'' = Some ''100.0''" and 2: "mention ''ts'' = Some ''100.0''"
    by (simp_all add: reply_def mention_def)
  have 3: "''90.0'' = (case reply ''thread_ts'' of Some T \<Rightarrow> T | None \<Rightarrow> ''100.0'')"
    and 4: "''100.0'' = (case mention ''thread_ts'' of Some T \<Rightarrow> T | None \<Rightarrow> ''100.0'')"
    by (simp_all add: reply_def mention_def)
  from conversation_key [OF 1 reply_turn 3] conversation_key [OF 2 mention_turn 4]
  show ?thesis
    unfolding reply_turn mention_turn by (simp add: history_keys_def no_history_def)
qed

subsection \<open>The mention is removed\<close>

text \<open>
  Claim C10 says that the query is the text without the one substring from the first \<^verbatim>\<open><@\<close>
  to the last \<^verbatim>\<open>>\<close>. In a text of two lines with a mention on each, \<^verbatim>\<open>re.sub\<close> removes two
  substrings, one on each line, and keeps the text between them.
\<close>

theorem mention_removed_counterexample:
  "re_sub_mention (''<@U1> a'' @ [CHR 0x0A] @ ''<@U2> b'') = '' a'' @ [CHR 0x0A] @ '' b'' \<and>
   strip_mention_spec (''<@U1> a'' @ [CHR 0x0A] @ ''<@U2> b'') = '' b''"
  by (simp add: strip_mention_spec_def Let_def)

text \<open>
  Claim C10, amended. The input of the chain and the user message appended to the history
  are both \<^verbatim>\<open>re.sub("<@.*>", "", text)\<close> of the event's text. On a text without a line feed
  that is the text without the one substring from the first \<^verbatim>\<open><@\<close> to the last \<^verbatim>\<open>>\<close> (the
  text itself when there is no such substring), so all text between two mentions on a line
  is removed with them. A match never crosses a line feed: the first line of a text is
  treated in this way by itself, and the rest of the text after the line feed likewise.
\<close>

theorem mention_removed:
  assumes "event ''text'' = Some x" and "handle_mention d c event w = (w', Returned)"
    and "CHR 0x0A \<notin> set l"
  shows "List.map_filter invoke_input (drop (length (trace w)) (trace w')) = [re_sub_mention x] \<and>
         List.map_filter user_text (drop (length (trace w)) (trace w')) = [re_sub_mention x] \<and>
         re_sub_mention l = strip_mention_spec l \<and>
         re_sub_mention (l @ CHR 0x0A # rest) = strip_mention_spec l @ CHR 0x0A # re_sub_mention rest"
proof -
  from assms(2) have
    "List.map_filter invoke_input (drop (length (trace w)) (trace w')) = [re_sub_mention x] \<and>
     List.map_filter user_text (drop (length (trace w)) (trace w')) = [re_sub_mention x]"
  proof (rule handle_mention_Returned)
    fix ch s x' ph calls ai
    assume "event ''text'' = Some x'"
    with assms(1) have "x' = x" by simp
    moreover assume "w' = w\<lparr>store := (store w)((case event ''thread_ts'' of Some t \<Rightarrow> t | None \<Rightarrow> s) :=
                    store w (case event ''thread_ts'' of Some t \<Rightarrow> t | None \<Rightarrow> s) @
                    [HumanMessage (re_sub_mention x'), AIMessage ai]),
                trace := trace w @
                  [Say typing_marker s,
                   HistoryRead (case event ''thread_ts'' of Some t \<Rightarrow> t | None \<Rightarrow> s),
                   Invoke (re_sub_mention x')
                     (store w (case event ''thread_ts'' of Some t \<Rightarrow> t | None \<Rightarrow> s))] @
                  map ChatUpdate calls @
                  [AddUser (case event ''thread_ts'' of Some t \<Rightarrow> t | None \<Rightarrow> s) (re_sub_mention x'),
                   AddAI (case event ''thread_ts'' of Some t \<Rightarrow> t | None \<Rightarrow> s) ai]\<rparr>"
    ultimately show ?thesis
      by (simp add: map_filter_append invoke_input_ChatUpdate user_text_ChatUpdate)
  qed
  with re_sub_mention_single_line [OF assms(3)] re_sub_mention_lines [OF assms(3), of rest]
  show ?thesis by simp
qed

theorem mention_removed_witness:
  "List.map_filter invoke_input (trace (fst (handle_mention example_deps 0 mention no_history))) =
     ['' hi''] \<and>
   List.map_filter user_text (trace (fst (handle_mention example_deps 0 mention no_history))) =
     ['' hi''] \<and>
   re_sub_mention ''<@U1> hello <@U2> world'' = '' world'' \<and>
   re_sub_mention (''<@U1> hello <@U2> world'' @ CHR 0x0A # ''<@U3> bye'') =
     '' world'' @ CHR 0x0A # '' bye''"
proof -
  have 1: "mention ''text'' = Some ''<@U1> hi''"
    by (simp add: mention_def)
  have 2: "CHR 0x0A \<notin> set ''<@U1> hello <@U2> world''"
    by simp
  from mention_removed [OF 1 mention_turn 2, of "''<@U3> bye''"]
  show ?thesis
    unfolding mention_turn
    by (simp add: no_history_def strip_mention_spec_def Let_def re_sub_hi)
qed

section \<open>Properties of the request handler\<close>

text \<open>
  Claim C8. When the headers of a request contain the key \<^verbatim>\<open>x-slack-retry-num\<close>, \<^verbatim>\<open>handler\<close>
  returns 200 without calling the adapter: the only call it has made is the log line at
  its entry, so no message is posted or edited, no chain is invoked and the history is
  neither read nor changed.
\<close>

theorem retry_short_circuit:
  "headers event = Some header \<Longrightarrow> header ''x-slack-retry-num'' = Some n \<Longrightarrow>
   handler slack_handle event w = (w\<lparr>trace := trace w @ [Log ''handler called'']\<rparr>, Inr (Status 200))"
  by (simp add: handler_def)

theorem retry_short_circuit_witness:
  "handler (\<lambda>event w. (w\<lparr>trace := trace w @ [Say ''x'' ''y'']\<rparr>, Inr ()))
     \<lparr>headers = Some [''x-slack-retry-num'' \<mapsto> ''1''], body = ''{}''\<rparr> no_history =
     (\<lparr>store = (\<lambda>k. []), trace = [Log ''handler called'']\<rparr>, Inr (Status 200))"
  using retry_short_circuit [of "\<lparr>headers = Some [''x-slack-retry-num'' \<mapsto> ''1''], body = ''{}''\<rparr>"
      "[''x-slack-retry-num'' \<mapsto> ''1'']" "''1''"
      "\<lambda>event w. (w\<lparr>trace := trace w @ [Say ''x'' ''y'']\<rparr>, Inr ())" no_history]
  by (simp add: no_history_def)

end
